theory Spec2Isabelle
  imports Main "HOL-Library.Char_ord" "HOL-Library.List_Lexorder"
begin

section \<open>The jobs table\<close>

text \<open>
  The control plane keeps its jobs in one relational table (\<^verbatim>\<open>data.jobs\<close>). A row is a
  record with the columns \<^verbatim>\<open>data.ts\<close> declares; the table is the list of its rows in the
  order a sequential scan returns them. Timestamps are milliseconds since the epoch. Ids
  are ULID strings, compared bytewise. A nullable column is an option. The column
  \<^verbatim>\<open>idempotency_key\<close> is declared NOT NULL with no default; it is an option here
  because an insert need not name it, and the insert is refused then (\<open>insert_job\<close>
  below), so no stored row has it empty.
\<close>

datatype job_status = Pending | Running | Success | Failure

datatype job_result_type = Resolution | Rejection

record job =
  job_id :: string
  owner_hash :: string
  deployment_id :: "string option"
  target_fn :: string
  target_args :: string
  idempotency_key :: "string option"
  cache_key :: "string option"
  status :: job_status
  result :: "string option"
  result_type :: "job_result_type option"
  executing_machine_id :: "string option"
  remaining_attempts :: int
  created_at :: int
  updated_at :: int
  resulted_at :: "int option"
  last_retrieved_at :: "int option"
  function_execution_time_ms :: "int option"
  timeout_interval_seconds :: "int option"
  service :: string
  predicted_to_be_retryable :: "bool option"
  predicted_to_be_retryable_reason :: "string option"
  predictive_retry_count :: "int option"

text \<open>
  Everything that makes a statement or a call fail. The database rejects a negative
  \<^verbatim>\<open>LIMIT\<close>, an \<^verbatim>\<open>integer\<close> column value outside 32 bits, a \<^verbatim>\<open>varchar(1024)\<close> value that is
  too long, a NULL in a NOT NULL column, and a row that repeats a unique id or a primary
  key; \<^verbatim>\<open>operationalCluster\<close>
  refuses a cluster that is not operational; the worker's poll throws on a 401; the
  contract's validation refuses a value below or above its bounds.
\<close>

datatype error =
    NegativeLimit
  | IntegerOutOfRange
  | StringTooLong
  | NotNullViolation
  | UniqueViolation
  | ClusterNotOperational
  | Unauthorised
  | TooSmall
  | TooBig
  | JobPollWaitTimeTooShort

definition int4 :: "int \<Rightarrow> bool" where
  "int4 x = (- 2147483648 \<le> x \<and> x \<le> 2147483647)"

section \<open>Dispatch: nextJobs\<close>

text \<open>
  \<^verbatim>\<open>nextJobs\<close> runs one statement:
  \<^verbatim>\<open>UPDATE jobs SET status = 'running', remaining_attempts = remaining_attempts - 1,
    last_retrieved_at = now, executing_machine_id = machineId
  WHERE id IN (SELECT id FROM jobs
               WHERE (status = 'pending' OR (status = 'failure' AND remaining_attempts > 0))
                 AND owner_hash = clusterId AND service = service
               LIMIT limit)
  RETURNING id, target_fn, target_args\<close>
  The inner query has no ORDER BY: it yields the first \<open>limit\<close> matching rows of the
  scan. The machine and service-definition upserts and the event stream that follow
  write other tables and are left out.
\<close>

record next_job =
  nj_id :: string
  nj_targetFn :: string
  nj_targetArgs :: string

definition claimable :: "string \<Rightarrow> string \<Rightarrow> job \<Rightarrow> bool" where
  "claimable serviceName clusterId j =
     ((status j = Pending \<or> (status j = Failure \<and> remaining_attempts j > 0))
      \<and> owner_hash j = clusterId
      \<and> service j = serviceName)"

definition selected_ids :: "string \<Rightarrow> string \<Rightarrow> int \<Rightarrow> job list \<Rightarrow> string list" where
  "selected_ids serviceName clusterId limit table =
     take (nat limit) (map job_id (filter (claimable serviceName clusterId) table))"

definition claim :: "string \<Rightarrow> int \<Rightarrow> job \<Rightarrow> job" where
  "claim machineId now j =
     j\<lparr>status := Running,
       remaining_attempts := remaining_attempts j - 1,
       last_retrieved_at := Some now,
       executing_machine_id := Some machineId\<rparr>"

definition returning :: "job \<Rightarrow> next_job" where
  "returning j = \<lparr>nj_id = job_id j, nj_targetFn = target_fn j, nj_targetArgs = target_args j\<rparr>"

definition nextJobs ::
  "string \<Rightarrow> string \<Rightarrow> int \<Rightarrow> string \<Rightarrow> int \<Rightarrow> job list \<Rightarrow> error + (job list \<times> next_job list)" where
  "nextJobs serviceName clusterId limit machineId now table =
     (if limit < 0 then Inl NegativeLimit
      else
        let ids = selected_ids serviceName clusterId limit table;
            hit = (\<lambda>j. job_id j \<in> set ids)
        in if list_ex (\<lambda>j. hit j \<and> \<not> int4 (remaining_attempts j - 1)) table
           then Inl IntegerOutOfRange
           else Inr (map (\<lambda>j. if hit j then claim machineId now j else j) table,
                     map (\<lambda>j. returning (claim machineId now j)) (filter hit table)))"

text \<open>A sample row, used to run the model on concrete tables.\<close>

definition sample_job :: "string \<Rightarrow> job_status \<Rightarrow> int \<Rightarrow> job" where
  "sample_job i st n =
     \<lparr>job_id = i, owner_hash = ''c1'', deployment_id = None, target_fn = ''hello'',
      target_args = ''args'', idempotency_key = Some i, cache_key = None, status = st,
      result = None, result_type = None, executing_machine_id = None,
      remaining_attempts = n, created_at = 0, updated_at = 0, resulted_at = None,
      last_retrieved_at = None, function_execution_time_ms = None,
      timeout_interval_seconds = None, service = ''svc'',
      predicted_to_be_retryable = None, predicted_to_be_retryable_reason = None,
      predictive_retry_count = Some 0\<rparr>"

section \<open>Admission: createJob\<close>























section \<open>Status retrieval: getJobStatuses\<close>

record status_row =
  sr_id :: string
  sr_service :: string
  sr_status :: job_status
  sr_result :: "string option"
  sr_resultType :: "job_result_type option"

definition select_statuses :: "string \<Rightarrow> string list \<Rightarrow> job list \<Rightarrow> status_row list" where
  "select_statuses clusterId jobIds table =
     map (\<lambda>j. \<lparr>sr_id = job_id j, sr_service = service j, sr_status = status j,
                sr_result = result j, sr_resultType = result_type j\<rparr>)
       (filter (\<lambda>j. owner_hash j = clusterId \<and> job_id j \<in> set jobIds) table)"

definition hasResolved :: "status_row list \<Rightarrow> bool" where
  "hasResolved jobs = list_ex (\<lambda>job. sr_status job = Success \<or> sr_status job = Failure) jobs"

text \<open>
  The do-while loop. Other requests change the table while the loop sleeps, so the table
  is a function of the clock: \<open>db t\<close> is its content at time \<open>t\<close>. A read takes no time
  and the 500 ms sleep advances the clock by 500. The loop returns the rows of its last
  read, the clock when it ends and the number of reads it made (\<open>n\<close> counts the reads
  made before).
\<close>

function getJobStatuses_loop ::
  "(int \<Rightarrow> job list) \<Rightarrow> string list \<Rightarrow> string \<Rightarrow> int \<Rightarrow> int \<Rightarrow> int \<Rightarrow> nat
   \<Rightarrow> status_row list \<times> int \<times> nat" where
  "getJobStatuses_loop db jobIds clusterId longPollTimeout start t n =
     (if hasResolved (select_statuses clusterId jobIds (db t))
      then (select_statuses clusterId jobIds (db t), t, Suc n)
      else if t + 500 - start < longPollTimeout
      then getJobStatuses_loop db jobIds clusterId longPollTimeout start (t + 500) (Suc n)
      else (select_statuses clusterId jobIds (db t), t + 500, Suc n))"
  by pat_completeness auto
termination
  by (relation "measure (\<lambda>(db, jobIds, clusterId, longPollTimeout, start, t, n).
                           nat (start + longPollTimeout - t))") auto

definition getJobStatuses ::
  "(int \<Rightarrow> job list) \<Rightarrow> string list \<Rightarrow> string \<Rightarrow> int option \<Rightarrow> int
   \<Rightarrow> status_row list \<times> int \<times> nat" where
  "getJobStatuses db jobIds clusterId longPollTimeout start =
     (if length jobIds = 0 then ([], start, 0)
      else getJobStatuses_loop db jobIds clusterId
             (case longPollTimeout of None \<Rightarrow> 20000 | Some v \<Rightarrow> v) start start 0)"

text \<open>
  Sample tables over time. In the first, job 01 is running until time 1000 and a success
  from then on, job 02 is pending, and job 03 belongs to another cluster. In the second,
  the one job stays running.
\<close>

definition sample_db :: "int \<Rightarrow> job list" where
  "sample_db t = [sample_job ''01'' (if t < 1000 then Running else Success) 0,
                  sample_job ''02'' Pending 1,
                  (sample_job ''03'' Success 0)\<lparr>owner_hash := ''c2''\<rparr>]"

definition running_db :: "int \<Rightarrow> job list" where
  "running_db t = [sample_job ''01'' Running 1]"

text \<open>
  The bounds on the wait. The contract declares
  \<^verbatim>\<open>ttl: z.coerce.number().min(5000).max(20000).default(20000)\<close>: a missing value becomes
  20000, a value outside the bounds fails validation. The client's constructor computes
  \<^verbatim>\<open>options?.jobPollWaitTime || 20000\<close>, throws when that is below 5000, and keeps the
  option as it was given.
\<close>

definition ttl_schema :: "int option \<Rightarrow> error + int" where
  "ttl_schema v =
     (case v of
        None \<Rightarrow> Inr 20000
      | Some x \<Rightarrow> if x < 5000 then Inl TooSmall else if 20000 < x then Inl TooBig else Inr x)"

definition Differential_jobPollWaitTime :: "int option \<Rightarrow> error + int option" where
  "Differential_jobPollWaitTime opt =
     (let jobPollWaitTime = (case opt of None \<Rightarrow> 20000 | Some v \<Rightarrow> if v = 0 then 20000 else v)
      in if jobPollWaitTime < 5000 then Inl JobPollWaitTimeTooShort else Inr opt)"

section \<open>The worker's polling agent\<close>

record poll_state =
  current :: int
  concurrency :: int

record polling_agent =
  errorCount :: nat
  idleCycleCount :: nat
  aborted :: bool
  pollingAborted :: bool
  active :: bool
  pollState :: poll_state
  maxIdleCycles :: "nat option"

text \<open>
  What the transport gives one \<^verbatim>\<open>createJobsRequest\<close>: a rejected promise (a network
  error, or the abort of the request), which the \<^verbatim>\<open>catch\<close> turns into status -1, or a
  response with its status and the number of jobs in its body.
\<close>

datatype poll_reply = NetworkError | AbortError | Response int nat

fun reply_status :: "poll_reply \<Rightarrow> int" where
  "reply_status NetworkError = - 1"
| "reply_status AbortError = - 1"
| "reply_status (Response st n) = st"

fun reply_jobs :: "poll_reply \<Rightarrow> nat" where
  "reply_jobs (Response st n) = n"
| "reply_jobs r = 0"

text \<open>
  \<^verbatim>\<open>pollForNextJob\<close> returns \<open>(jobCount, ok)\<close> and the agent with its \<^verbatim>\<open>pollState\<close>
  updated, or throws. At full concurrency it makes no request. Running the received
  jobs is the task queue's work; a finished task is the event \<open>TaskDone\<close> below.
\<close>

definition pollForNextJob ::
  "polling_agent \<Rightarrow> poll_reply \<Rightarrow> error + (polling_agent \<times> nat \<times> bool)" where
  "pollForNextJob a r =
     (if concurrency (pollState a) \<le> current (pollState a) then Inr (a, 0, True)
      else if reply_status r = 400 then Inr (a, 0, False)
      else if reply_status r = 200 then
        Inr (a\<lparr>pollState := (pollState a)\<lparr>current := current (pollState a) + int (reply_jobs r)\<rparr>\<rparr>,
             reply_jobs r, True)
      else if reply_status r = 401 then Inl Unauthorised
      else Inr (a, 0, False))"

text \<open>
  \<^verbatim>\<open>quit\<close> aborts the controller at once; the rest of it waits for the loop to see the
  abort.
\<close>

definition quit :: "polling_agent \<Rightarrow> polling_agent" where
  "quit a = a\<lparr>aborted := True\<rparr>"

definition idle_limit_reached :: "polling_agent \<Rightarrow> bool" where
  "idle_limit_reached a =
     (case maxIdleCycles a of
        None \<Rightarrow> False
      | Some m \<Rightarrow> m \<noteq> 0 \<and> m \<le> idleCycleCount a)"

text \<open>
  The body of \<^verbatim>\<open>poll\<close> after its abort test: one call of \<^verbatim>\<open>pollForNextJob\<close>, the two
  counters, the two calls of \<^verbatim>\<open>quit\<close>.
\<close>

definition poll_cycle :: "polling_agent \<Rightarrow> poll_reply \<Rightarrow> error + polling_agent" where
  "poll_cycle a r =
     (case pollForNextJob a r of
        Inl e \<Rightarrow> Inl e
      | Inr (a1, jobCount, ok) \<Rightarrow>
          let a2 = (if ok
                    then a1\<lparr>errorCount := 0,
                            idleCycleCount := (if 0 < jobCount then 0 else idleCycleCount a1 + 1)\<rparr>
                    else a1\<lparr>errorCount := errorCount a1 + 1\<rparr>);
              a3 = (if 10 < errorCount a2 then quit a2 else a2);
              a4 = (if idle_limit_reached a3 then quit a3 else a3)
          in Inr a4)"

text \<open>
  The loop, over what happens around it: a poll gets a reply, or a running task
  finishes and its \<^verbatim>\<open>onComplete\<close> takes one off \<^verbatim>\<open>pollState.current\<close>. The loop has
  stopped once \<^verbatim>\<open>poll\<close> sees the abort and sets \<^verbatim>\<open>pollingAborted\<close>; it has crashed when
  \<^verbatim>\<open>pollForNextJob\<close> threw, which rejects the promise of \<^verbatim>\<open>poll\<close>; otherwise it is
  still polling when the events end.
\<close>

datatype agent_event = Poll poll_reply | TaskDone

datatype agent_outcome =
    Polling polling_agent
  | Stopped polling_agent
  | Crashed error polling_agent

fun poll :: "polling_agent \<Rightarrow> agent_event list \<Rightarrow> agent_outcome" where
  "poll a [] = (if aborted a then Stopped (a\<lparr>pollingAborted := True\<rparr>) else Polling a)"
| "poll a (TaskDone # rest) =
     (if aborted a then Stopped (a\<lparr>pollingAborted := True\<rparr>)
      else poll (a\<lparr>pollState := (pollState a)\<lparr>current := current (pollState a) - 1\<rparr>\<rparr>) rest)"
| "poll a (Poll r # rest) =
     (if aborted a then Stopped (a\<lparr>pollingAborted := True\<rparr>)
      else
        (case poll_cycle a r of
           Inl e \<Rightarrow> Crashed e a
         | Inr a' \<Rightarrow> poll a' rest))"

text \<open>A new agent, after \<^verbatim>\<open>start\<close>.\<close>

definition started_agent :: "nat option \<Rightarrow> polling_agent" where
  "started_agent m =
     \<lparr>errorCount = 0, idleCycleCount = 0, aborted = False, pollingAborted = False,
      active = True, pollState = \<lparr>current = 0, concurrency = 100\<rparr>, maxIdleCycles = m\<rparr>"

section \<open>Properties of nextJobs\<close>

lemma take_filter_index:
  "distinct (map f xs) \<Longrightarrow> i < length xs \<Longrightarrow>
   (f (xs ! i) \<in> set (take n (map f (filter P xs))))
     = (P (xs ! i) \<and> length (filter P (take i xs)) < n)"
proof (induction xs arbitrary: i n)
  case Nil
  then show ?case by simp
next
  case (Cons x xs)
  have notin: "f x \<notin> set (take m (map f (filter P xs)))" for m
  proof
    assume "f x \<in> set (take m (map f (filter P xs)))"
    then have "f x \<in> set (map f (filter P xs))" by (rule in_set_takeD)
    then have "f x \<in> f ` set xs" by auto
    with Cons.prems(1) show False by simp
  qed
  show ?case
  proof (cases i)
    case 0
    show ?thesis
    proof (cases "P x")
      case True
      with 0 show ?thesis by (cases n) simp_all
    next
      case False
      with 0 notin show ?thesis by simp
    qed
  next
    case (Suc i')
    with Cons.prems have d: "distinct (map f xs)" and l: "i' < length xs" by simp_all
    have ne: "f (xs ! i') \<noteq> f x"
      using Cons.prems(1) l by (metis distinct.simps(2) list.simps(9) nth_map length_map nth_mem)
    show ?thesis
    proof (cases "P x")
      case True
      show ?thesis
      proof (cases n)
        case 0
        with Suc show ?thesis by simp
      next
        case (Suc m)
        with True \<open>i = Suc i'\<close> ne Cons.IH [OF d l, of m] show ?thesis by simp
      qed
    next
      case False
      with Suc Cons.IH [OF d l, of n] show ?thesis by simp
    qed
  qed
qed

lemma nj_id_returning_claim: "nj_id (returning (claim machineId now j)) = job_id j"
  by (simp add: returning_def claim_def)

lemma returned_ids_list:
  "nextJobs serviceName clusterId limit machineId now table = Inr (table', out) \<Longrightarrow>
   map nj_id out
     = map job_id (filter (\<lambda>j. job_id j \<in> set (selected_ids serviceName clusterId limit table)) table)"
  by (auto simp: nextJobs_def Let_def nj_id_returning_claim split: if_splits)

lemma returned_ids:
  "nextJobs serviceName clusterId limit machineId now table = Inr (table', out) \<Longrightarrow>
   set (map nj_id out)
     = {i \<in> job_id ` set table. i \<in> set (selected_ids serviceName clusterId limit table)}"
  unfolding returned_ids_list by auto

lemma selected_ids_subset:
  "set (selected_ids serviceName clusterId limit table) \<subseteq> job_id ` set table"
proof -
  have "set (selected_ids serviceName clusterId limit table)
          \<subseteq> set (map job_id (filter (claimable serviceName clusterId) table))"
    unfolding selected_ids_def by (rule set_take_subset)
  then show ?thesis by auto
qed

lemma returned_ids_selected:
  "nextJobs serviceName clusterId limit machineId now table = Inr (table', out) \<Longrightarrow>
   set (map nj_id out) = set (selected_ids serviceName clusterId limit table)"
  using returned_ids [of serviceName clusterId limit machineId now table table' out]
    selected_ids_subset [of serviceName clusterId limit table]
  by auto

lemma nextJobs_limit:
  "nextJobs serviceName clusterId limit machineId now table = Inr (table', out) \<Longrightarrow> 0 \<le> limit"
  by (simp add: nextJobs_def split: if_splits)

lemma nextJobs_table:
  "nextJobs serviceName clusterId limit machineId now table = Inr (table', out) \<Longrightarrow>
   table' = map (\<lambda>j. if job_id j \<in> set (map nj_id out) then claim machineId now j else j) table"
proof -
  assume a: "nextJobs serviceName clusterId limit machineId now table = Inr (table', out)"
  have s: "set (map nj_id out) = set (selected_ids serviceName clusterId limit table)"
    by (rule returned_ids_selected [OF a])
  from a have "table' = map (\<lambda>j. if job_id j \<in> set (selected_ids serviceName clusterId limit table)
                                 then claim machineId now j else j) table"
    by (simp add: nextJobs_def Let_def split: if_splits)
  with s show ?thesis by simp
qed

lemma filter_take_ids:
  "distinct (map f xs) \<Longrightarrow>
   filter (\<lambda>x. f x \<in> set (take n (map f (filter P xs)))) xs = take n (filter P xs)"
proof (induction xs arbitrary: n)
  case Nil
  then show ?case by simp
next
  case (Cons x xs)
  then have d: "distinct (map f xs)" and nx: "f x \<notin> f ` set xs" by simp_all
  have notin: "f x \<notin> set (take m (map f (filter P xs)))" for m
  proof
    assume "f x \<in> set (take m (map f (filter P xs)))"
    then have "f x \<in> set (map f (filter P xs))" by (rule in_set_takeD)
    then have "f x \<in> f ` set xs" by auto
    with nx show False by simp
  qed
  show ?case
  proof (cases "P x")
    case False
    with notin Cons.IH [OF d, of n] show ?thesis by simp
  next
    case True
    show ?thesis
    proof (cases n)
      case 0
      then show ?thesis by simp
    next
      case (Suc m)
      have "filter (\<lambda>y. f y = f x \<or> f y \<in> set (take m (map f (filter P xs)))) xs
              = filter (\<lambda>y. f y \<in> set (take m (map f (filter P xs)))) xs"
        using nx by (intro filter_cong) (auto simp: image_iff)
      with True Suc Cons.IH [OF d, of m] show ?thesis by simp
    qed
  qed
qed

lemma count_before_mono:
  "i \<le> k \<Longrightarrow> length (filter P (take i xs)) \<le> length (filter P (take k xs))"
proof -
  assume "i \<le> k"
  then have "take k xs = take i xs @ take (k - i) (drop i xs)"
    by (metis le_add_diff_inverse take_add)
  then show ?thesis by simp
qed


lemmas run_nextJobs =
  nextJobs_def selected_ids_def claimable_def claim_def returning_def sample_job_def int4_def


text \<open>
  C1 (amended). For every call of \<open>nextJobs\<close> that the store accepts, on a table whose
  ids are unique: the row at position \<open>i\<close> of the scan is claimed (returned, and moved to
  running) if and only if its status is pending, or failure with \<open>remaining_attempts\<close>
  above 0, and it belongs to the polled cluster and service, and fewer than \<open>limit\<close> such
  rows precede it in the scan. The test on \<open>remaining_attempts\<close> guards the failure
  status alone.
\<close>

theorem nextJobs_claims_iff:
  assumes "distinct (map job_id table)"
    and "nextJobs serviceName clusterId limit machineId now table = Inr (table', out)"
    and "i < length table"
  shows "(job_id (table ! i) \<in> set (map nj_id out))
           = ((status (table ! i) = Pending
                \<or> (status (table ! i) = Failure \<and> 0 < remaining_attempts (table ! i)))
              \<and> owner_hash (table ! i) = clusterId
              \<and> service (table ! i) = serviceName
              \<and> int (length (filter (claimable serviceName clusterId) (take i table))) < limit)
         \<and> status (table' ! i)
             = (if job_id (table ! i) \<in> set (map nj_id out) then Running else status (table ! i))"
proof -
  have lim: "0 \<le> limit" by (rule nextJobs_limit [OF assms(2)])
  have "(job_id (table ! i) \<in> set (map nj_id out))
          = (job_id (table ! i) \<in> set (selected_ids serviceName clusterId limit table))"
    by (simp only: returned_ids_selected [OF assms(2)])
  also have "\<dots> = (claimable serviceName clusterId (table ! i)
                    \<and> length (filter (claimable serviceName clusterId) (take i table)) < nat limit)"
    unfolding selected_ids_def by (rule take_filter_index [OF assms(1) assms(3)])
  finally have first: "(job_id (table ! i) \<in> set (map nj_id out))
          = ((status (table ! i) = Pending
                \<or> (status (table ! i) = Failure \<and> 0 < remaining_attempts (table ! i)))
              \<and> owner_hash (table ! i) = clusterId
              \<and> service (table ! i) = serviceName
              \<and> int (length (filter (claimable serviceName clusterId) (take i table))) < limit)"
    using lim by (auto simp: claimable_def)
  have "table' ! i = (if job_id (table ! i) \<in> set (map nj_id out)
                      then claim machineId now (table ! i) else table ! i)"
    using nextJobs_table [OF assms(2)] assms(3) by simp
  then have second: "status (table' ! i)
             = (if job_id (table ! i) \<in> set (map nj_id out) then Running else status (table ! i))"
    by (simp add: claim_def)
  from first second show ?thesis by (rule conjI)
qed

text \<open>
  C1, witness: three rows of one cluster and service, limit 1. The first (failure, no
  attempt left) is passed over; the second (pending) is claimed.
\<close>

theorem nextJobs_claims_iff_witness:
  "distinct (map job_id [sample_job ''01'' Failure 0, sample_job ''02'' Pending 0,
                         sample_job ''03'' Failure 1])
   \<and> nextJobs ''svc'' ''c1'' 1 ''m1'' 1000
         [sample_job ''01'' Failure 0, sample_job ''02'' Pending 0, sample_job ''03'' Failure 1]
       = Inr ([sample_job ''01'' Failure 0,
               claim ''m1'' 1000 (sample_job ''02'' Pending 0),
               sample_job ''03'' Failure 1],
              [returning (sample_job ''02'' Pending 0)])
   \<and> (1::nat) < length [sample_job ''01'' Failure 0, sample_job ''02'' Pending 0,
                         sample_job ''03'' Failure 1]
   \<and> job_id ([sample_job ''01'' Failure 0, sample_job ''02'' Pending 0,
               sample_job ''03'' Failure 1] ! 1)
       \<in> set (map nj_id [returning (sample_job ''02'' Pending 0)])
   \<and> status ([sample_job ''01'' Failure 0,
               claim ''m1'' 1000 (sample_job ''02'' Pending 0),
               sample_job ''03'' Failure 1] ! 1) = Running"
proof -
  let ?T = "[sample_job ''01'' Failure 0, sample_job ''02'' Pending 0, sample_job ''03'' Failure 1]"
  let ?T' = "[sample_job ''01'' Failure 0, claim ''m1'' 1000 (sample_job ''02'' Pending 0),
              sample_job ''03'' Failure 1]"
  let ?out = "[returning (sample_job ''02'' Pending 0)]"
  have d: "distinct (map job_id ?T)" by (simp add: sample_job_def)
  have r: "nextJobs ''svc'' ''c1'' 1 ''m1'' 1000 ?T = Inr (?T', ?out)"
    by (simp add: run_nextJobs)
  have l: "(1::nat) < length ?T" by simp
  have c: "job_id (?T ! 1) \<in> set (map nj_id ?out)"
    by (simp add: returning_def sample_job_def)
  from nextJobs_claims_iff [OF d r l] c have "status (?T' ! 1) = Running"
    by (simp only: if_True)
  with d r l c show ?thesis by (intro conjI)
qed

text \<open>
  C1, counterexample: a pending job whose \<open>remaining_attempts\<close> is 0 is claimed; it is
  moved to running and its \<open>remaining_attempts\<close> becomes -1.
\<close>

theorem nextJobs_pending_zero_attempts_counterexample:
  "status (sample_job ''01'' Pending 0) = Pending
   \<and> remaining_attempts (sample_job ''01'' Pending 0) = 0
   \<and> nextJobs ''svc'' ''c1'' 1 ''m1'' 1000 [sample_job ''01'' Pending 0]
       = Inr ([(sample_job ''01'' Pending 0)
                 \<lparr>status := Running, remaining_attempts := - 1,
                  last_retrieved_at := Some 1000, executing_machine_id := Some ''m1''\<rparr>],
              [\<lparr>nj_id = ''01'', nj_targetFn = ''hello'', nj_targetArgs = ''args''\<rparr>])"
  by (simp add: run_nextJobs)

text \<open>
  C2. For every job claimed by \<open>nextJobs\<close>, the one step from the table before the call
  to the table after it sets exactly four fields of the row: \<open>status\<close> becomes running,
  \<open>remaining_attempts\<close> drops by 1, \<open>last_retrieved_at\<close> becomes the time of the call and
  \<open>executing_machine_id\<close> the polling worker's machine id. Every other field of the row,
  \<open>target_args\<close> and \<open>service\<close> among them, is unchanged; so is every row that is not
  claimed, and the number of rows.
\<close>

theorem nextJobs_claim_frame:
  assumes "nextJobs serviceName clusterId limit machineId now table = Inr (table', out)"
    and "i < length table"
    and "job_id (table ! i) \<in> set (map nj_id out)"
  shows "table' ! i
           = (table ! i)\<lparr>status := Running,
                         remaining_attempts := remaining_attempts (table ! i) - 1,
                         last_retrieved_at := Some now,
                         executing_machine_id := Some machineId\<rparr>
         \<and> status (table' ! i) = Running
         \<and> remaining_attempts (table' ! i) = remaining_attempts (table ! i) - 1
         \<and> last_retrieved_at (table' ! i) = Some now
         \<and> executing_machine_id (table' ! i) = Some machineId
         \<and> target_args (table' ! i) = target_args (table ! i)
         \<and> service (table' ! i) = service (table ! i)
         \<and> job_id (table' ! i) = job_id (table ! i)
         \<and> owner_hash (table' ! i) = owner_hash (table ! i)
         \<and> deployment_id (table' ! i) = deployment_id (table ! i)
         \<and> target_fn (table' ! i) = target_fn (table ! i)
         \<and> idempotency_key (table' ! i) = idempotency_key (table ! i)
         \<and> cache_key (table' ! i) = cache_key (table ! i)
         \<and> result (table' ! i) = result (table ! i)
         \<and> result_type (table' ! i) = result_type (table ! i)
         \<and> created_at (table' ! i) = created_at (table ! i)
         \<and> updated_at (table' ! i) = updated_at (table ! i)
         \<and> resulted_at (table' ! i) = resulted_at (table ! i)
         \<and> function_execution_time_ms (table' ! i) = function_execution_time_ms (table ! i)
         \<and> timeout_interval_seconds (table' ! i) = timeout_interval_seconds (table ! i)
         \<and> predicted_to_be_retryable (table' ! i) = predicted_to_be_retryable (table ! i)
         \<and> predicted_to_be_retryable_reason (table' ! i)
             = predicted_to_be_retryable_reason (table ! i)
         \<and> predictive_retry_count (table' ! i) = predictive_retry_count (table ! i)
         \<and> length table' = length table
         \<and> (\<forall>k < length table.
               job_id (table ! k) \<notin> set (map nj_id out) \<longrightarrow> table' ! k = table ! k)"
proof -
  note t = nextJobs_table [OF assms(1)]
  have row: "table' ! i = claim machineId now (table ! i)"
    using t assms(2) assms(3) by simp
  have len: "length table' = length table"
    using t by simp
  have others: "\<forall>k < length table.
               job_id (table ! k) \<notin> set (map nj_id out) \<longrightarrow> table' ! k = table ! k"
    using t by simp
  from row len others show ?thesis
    by (simp add: claim_def)
qed


text \<open>
  C2, witness: two pending rows, limit 1. The first is claimed and differs from the row
  before in the four fields only; the second is untouched.
\<close>

theorem nextJobs_claim_frame_witness:
  "nextJobs ''svc'' ''c1'' 1 ''m1'' 1000 [sample_job ''01'' Pending 2, sample_job ''02'' Pending 2]
     = Inr ([claim ''m1'' 1000 (sample_job ''01'' Pending 2), sample_job ''02'' Pending 2],
            [returning (sample_job ''01'' Pending 2)])
   \<and> (0::nat) < length [sample_job ''01'' Pending 2, sample_job ''02'' Pending 2]
   \<and> job_id ([sample_job ''01'' Pending 2, sample_job ''02'' Pending 2] ! 0)
        \<in> set (map nj_id [returning (sample_job ''01'' Pending 2)])
   \<and> [claim ''m1'' 1000 (sample_job ''01'' Pending 2), sample_job ''02'' Pending 2] ! 0
        = (sample_job ''01'' Pending 2)
            \<lparr>status := Running, remaining_attempts := 1,
             last_retrieved_at := Some 1000, executing_machine_id := Some ''m1''\<rparr>
   \<and> target_args ([claim ''m1'' 1000 (sample_job ''01'' Pending 2),
                     sample_job ''02'' Pending 2] ! 0) = ''args''
   \<and> service ([claim ''m1'' 1000 (sample_job ''01'' Pending 2),
                 sample_job ''02'' Pending 2] ! 0) = ''svc''
   \<and> [claim ''m1'' 1000 (sample_job ''01'' Pending 2), sample_job ''02'' Pending 2] ! 1
        = sample_job ''02'' Pending 2"
proof -
  let ?T = "[sample_job ''01'' Pending 2, sample_job ''02'' Pending 2]"
  let ?T' = "[claim ''m1'' 1000 (sample_job ''01'' Pending 2), sample_job ''02'' Pending 2]"
  let ?out = "[returning (sample_job ''01'' Pending 2)]"
  have r: "nextJobs ''svc'' ''c1'' 1 ''m1'' 1000 ?T = Inr (?T', ?out)"
    by (simp add: run_nextJobs)
  have l: "(0::nat) < length ?T" by simp
  have c: "job_id (?T ! 0) \<in> set (map nj_id ?out)"
    by (simp add: returning_def sample_job_def)
  note f = nextJobs_claim_frame [OF r l c]
  from f have row: "?T' ! 0 = (sample_job ''01'' Pending 2)
            \<lparr>status := Running, remaining_attempts := 1,
             last_retrieved_at := Some 1000, executing_machine_id := Some ''m1''\<rparr>"
    by (simp add: sample_job_def)
  from f have ta: "target_args (?T' ! 0) = ''args''" by (simp add: sample_job_def)
  from f have sv: "service (?T' ! 0) = ''svc''" by (simp add: sample_job_def)
  from f have "\<forall>k<length ?T. job_id (?T ! k) \<notin> set (map nj_id ?out) \<longrightarrow> ?T' ! k = ?T ! k"
    by blast
  then have "job_id (?T ! 1) \<notin> set (map nj_id ?out) \<longrightarrow> ?T' ! 1 = ?T ! 1"
    by simp
  then have o: "?T' ! 1 = sample_job ''02'' Pending 2"
    by (simp add: returning_def sample_job_def)
  from r l c row ta sv o show ?thesis by (intro conjI)
qed


text \<open>
  C3 (amended). On a table whose ids are unique, \<open>nextJobs\<close> claims the first \<open>limit\<close>
  claimable rows of the polled cluster and service in the order of the scan: every
  claimed row precedes, in the scan, every claimable row left unclaimed. The statement
  sorts by nothing; when the scan happens to return the rows by increasing id, every
  claimed job has a smaller id than every claimable job left unclaimed.
\<close>

theorem nextJobs_scan_order:
  assumes "distinct (map job_id table)"
    and "nextJobs serviceName clusterId limit machineId now table = Inr (table', out)"
  shows "map nj_id out
           = take (nat limit) (map job_id (filter (claimable serviceName clusterId) table))
         \<and> (\<forall>k i. k < length table \<and> i < length table
                \<and> job_id (table ! k) \<in> set (map nj_id out)
                \<and> claimable serviceName clusterId (table ! i)
                \<and> job_id (table ! i) \<notin> set (map nj_id out)
              \<longrightarrow> k < i \<and> (sorted (map job_id table) \<longrightarrow> job_id (table ! k) < job_id (table ! i)))"
proof -
  let ?P = "claimable serviceName clusterId"
  let ?n = "nat limit"
  have "map nj_id out
          = map job_id (filter (\<lambda>j. job_id j \<in> set (take ?n (map job_id (filter ?P table)))) table)"
    using returned_ids_list [OF assms(2)] by (simp add: selected_ids_def)
  also have "\<dots> = map job_id (take ?n (filter ?P table))"
    by (simp only: filter_take_ids [OF assms(1)])
  finally have first: "map nj_id out = take ?n (map job_id (filter ?P table))"
    by (simp add: take_map)
  have second: "k < i \<and> (sorted (map job_id table) \<longrightarrow> job_id (table ! k) < job_id (table ! i))"
    if k: "k < length table" and i: "i < length table"
      and ck: "job_id (table ! k) \<in> set (map nj_id out)"
      and pi: "?P (table ! i)"
      and ni: "job_id (table ! i) \<notin> set (map nj_id out)"
    for k i
  proof -
    from ck have "job_id (table ! k) \<in> set (take ?n (map job_id (filter ?P table)))"
      unfolding first .
    then have bk: "length (filter ?P (take k table)) < ?n"
      using take_filter_index [OF assms(1) k, of ?n ?P] by blast
    from ni have "job_id (table ! i) \<notin> set (take ?n (map job_id (filter ?P table)))"
      unfolding first .
    with pi have bi: "\<not> length (filter ?P (take i table)) < ?n"
      using take_filter_index [OF assms(1) i, of ?n ?P] by blast
    have "i \<noteq> k" using ck ni by auto
    moreover have "\<not> i < k"
    proof
      assume "i < k"
      then have "length (filter ?P (take i table)) \<le> length (filter ?P (take k table))"
        by (intro count_before_mono) simp
      with bk bi show False by simp
    qed
    ultimately have ki: "k < i" by simp
    have "job_id (table ! k) < job_id (table ! i)" if s: "sorted (map job_id table)"
    proof -
      from s ki i have "map job_id table ! k \<le> map job_id table ! i"
        by (intro sorted_nth_mono) simp_all
      with k i have le: "job_id (table ! k) \<le> job_id (table ! i)" by simp
      have "map job_id table ! k \<noteq> map job_id table ! i"
        using nth_eq_iff_index_eq [OF assms(1), of k i] k i ki by simp
      with k i have "job_id (table ! k) \<noteq> job_id (table ! i)" by simp
      with le show ?thesis by simp
    qed
    with ki show ?thesis by simp
  qed
  from first second show ?thesis by blast
qed

text \<open>
  C3, witness: three rows in id order, the first and the third claimable, limit 1. The
  first is claimed and its id is below the id of the third.
\<close>

theorem nextJobs_scan_order_witness:
  "distinct (map job_id [sample_job ''01'' Pending 2, sample_job ''02'' Running 1,
                         sample_job ''03'' Pending 2])
   \<and> nextJobs ''svc'' ''c1'' 1 ''m1'' 1000
         [sample_job ''01'' Pending 2, sample_job ''02'' Running 1, sample_job ''03'' Pending 2]
       = Inr ([claim ''m1'' 1000 (sample_job ''01'' Pending 2), sample_job ''02'' Running 1,
               sample_job ''03'' Pending 2],
              [returning (sample_job ''01'' Pending 2)])
   \<and> sorted (map job_id [sample_job ''01'' Pending 2, sample_job ''02'' Running 1,
                          sample_job ''03'' Pending 2])
   \<and> claimable ''svc'' ''c1'' (sample_job ''03'' Pending 2)
   \<and> map nj_id [returning (sample_job ''01'' Pending 2)] = [''01'']
   \<and> job_id ([sample_job ''01'' Pending 2, sample_job ''02'' Running 1,
               sample_job ''03'' Pending 2] ! 0)
       < job_id ([sample_job ''01'' Pending 2, sample_job ''02'' Running 1,
                  sample_job ''03'' Pending 2] ! 2)"
proof -
  let ?T = "[sample_job ''01'' Pending 2, sample_job ''02'' Running 1, sample_job ''03'' Pending 2]"
  let ?T' = "[claim ''m1'' 1000 (sample_job ''01'' Pending 2), sample_job ''02'' Running 1,
              sample_job ''03'' Pending 2]"
  let ?out = "[returning (sample_job ''01'' Pending 2)]"
  have d: "distinct (map job_id ?T)" by (simp add: sample_job_def)
  have r: "nextJobs ''svc'' ''c1'' 1 ''m1'' 1000 ?T = Inr (?T', ?out)"
    by (simp add: run_nextJobs)
  have s: "sorted (map job_id ?T)" by (simp add: sample_job_def)
  have c: "claimable ''svc'' ''c1'' (sample_job ''03'' Pending 2)"
    by (simp add: claimable_def sample_job_def)
  have o: "map nj_id ?out = [''01'']" by (simp add: returning_def sample_job_def)
  note th = nextJobs_scan_order [OF d r]
  from th have "(0::nat) < length ?T \<and> (2::nat) < length ?T
                \<and> job_id (?T ! 0) \<in> set (map nj_id ?out)
                \<and> claimable ''svc'' ''c1'' (?T ! 2)
                \<and> job_id (?T ! 2) \<notin> set (map nj_id ?out)
              \<longrightarrow> (0::nat) < 2 \<and> (sorted (map job_id ?T) \<longrightarrow> job_id (?T ! 0) < job_id (?T ! 2))"
    by blast
  moreover have "(0::nat) < length ?T \<and> (2::nat) < length ?T
                \<and> job_id (?T ! 0) \<in> set (map nj_id ?out)
                \<and> claimable ''svc'' ''c1'' (?T ! 2)
                \<and> job_id (?T ! 2) \<notin> set (map nj_id ?out)"
    using c o by (simp add: sample_job_def)
  ultimately have "job_id (?T ! 0) < job_id (?T ! 2)" using s by blast
  with d r s c o show ?thesis by (intro conjI)
qed


text \<open>
  C3, counterexample: the scan returns job 02 before job 01 (a row rewritten by an
  update moves in the heap), both pending with attempts left, limit 1. Job 02 is
  claimed while job 01, of the same cluster and service and with the smaller id, stays
  pending.
\<close>

theorem nextJobs_later_id_first_counterexample:
  "''01'' < ''02''
   \<and> claimable ''svc'' ''c1'' (sample_job ''01'' Pending 2)
   \<and> claimable ''svc'' ''c1'' (sample_job ''02'' Pending 2)
   \<and> nextJobs ''svc'' ''c1'' 1 ''m1'' 1000 [sample_job ''02'' Pending 2, sample_job ''01'' Pending 2]
       = Inr ([(sample_job ''02'' Pending 2)
                 \<lparr>status := Running, remaining_attempts := 1,
                  last_retrieved_at := Some 1000, executing_machine_id := Some ''m1''\<rparr>,
               sample_job ''01'' Pending 2],
              [\<lparr>nj_id = ''02'', nj_targetFn = ''hello'', nj_targetArgs = ''args''\<rparr>])"
  by (simp add: run_nextJobs)

section \<open>Properties of createJob\<close>















section \<open>Properties of getJobStatuses\<close>

lemma select_statuses_ids:
  "sr_id ` set (select_statuses clusterId jobIds table)
     = {i \<in> set jobIds. \<exists>j \<in> set table. job_id j = i \<and> owner_hash j = clusterId}"
  by (auto simp: select_statuses_def image_iff)

lemma select_statuses_rows:
  "r \<in> set (select_statuses clusterId jobIds table) \<Longrightarrow>
   \<exists>j \<in> set table. owner_hash j = clusterId \<and> job_id j \<in> set jobIds
      \<and> sr_id r = job_id j \<and> sr_status r = status j \<and> sr_result r = result j
      \<and> sr_resultType r = result_type j \<and> sr_service r = service j"
  by (auto simp: select_statuses_def)

declare getJobStatuses_loop.simps [simp del]

lemma loop_characterised:
  "\<exists>k. getJobStatuses_loop db jobIds clusterId T start t n
          = (select_statuses clusterId jobIds (db (t + 500 * int k)),
             (if hasResolved (select_statuses clusterId jobIds (db (t + 500 * int k)))
              then t + 500 * int k else t + 500 * int k + 500),
             n + k + 1)
        \<and> (\<forall>j < k. \<not> hasResolved (select_statuses clusterId jobIds (db (t + 500 * int j)))
                    \<and> t + 500 * int j + 500 - start < T)
        \<and> (hasResolved (select_statuses clusterId jobIds (db (t + 500 * int k)))
             \<or> \<not> t + 500 * int k + 500 - start < T)"
proof (induction db jobIds clusterId T start t n rule: getJobStatuses_loop.induct)
  case (1 db jobIds clusterId T start t n)
  let ?R = "\<lambda>k. select_statuses clusterId jobIds (db (t + 500 * int k))"
  show ?case
  proof (cases "hasResolved (?R 0)")
    case True
    then have "getJobStatuses_loop db jobIds clusterId T start t n = (?R 0, t, n + 0 + 1)"
      by (simp add: getJobStatuses_loop.simps [of db jobIds clusterId T start t n])
    with True show ?thesis by (intro exI [of _ 0]) simp
  next
    case False
    show ?thesis
    proof (cases "t + 500 - start < T")
      case stop: False
      with False have "getJobStatuses_loop db jobIds clusterId T start t n
                         = (?R 0, t + 500, n + 0 + 1)"
        by (simp add: getJobStatuses_loop.simps [of db jobIds clusterId T start t n])
      with False stop show ?thesis by (intro exI [of _ 0]) simp
    next
      case True
      from False True have step: "getJobStatuses_loop db jobIds clusterId T start t n
                = getJobStatuses_loop db jobIds clusterId T start (t + 500) (Suc n)"
        by (simp add: getJobStatuses_loop.simps [of db jobIds clusterId T start t n])
      from False True "1.IH" obtain k where
        r: "getJobStatuses_loop db jobIds clusterId T start (t + 500) (Suc n)
              = (select_statuses clusterId jobIds (db (t + 500 + 500 * int k)),
                 (if hasResolved (select_statuses clusterId jobIds (db (t + 500 + 500 * int k)))
                  then t + 500 + 500 * int k else t + 500 + 500 * int k + 500),
                 Suc n + k + 1)"
        and b: "\<forall>j < k. \<not> hasResolved (select_statuses clusterId jobIds (db (t + 500 + 500 * int j)))
                    \<and> t + 500 + 500 * int j + 500 - start < T"
        and e: "hasResolved (select_statuses clusterId jobIds (db (t + 500 + 500 * int k)))
                 \<or> \<not> t + 500 + 500 * int k + 500 - start < T"
        by simp blast
      have sh: "t + 500 + 500 * int j = t + 500 * int (Suc j)" for j by simp
      have "\<forall>j < Suc k. \<not> hasResolved (?R j) \<and> t + 500 * int j + 500 - start < T"
      proof (intro allI impI)
        fix j assume "j < Suc k"
        show "\<not> hasResolved (?R j) \<and> t + 500 * int j + 500 - start < T"
        proof (cases j)
          case 0
          with False True show ?thesis by simp
        next
          case (Suc j')
          with \<open>j < Suc k\<close> have "j' < k" by simp
          with b have "\<not> hasResolved (select_statuses clusterId jobIds (db (t + 500 + 500 * int j')))
                    \<and> t + 500 + 500 * int j' + 500 - start < T" by blast
          then show ?thesis unfolding sh Suc .
        qed
      qed
      moreover from r have "getJobStatuses_loop db jobIds clusterId T start t n
          = (?R (Suc k), (if hasResolved (?R (Suc k)) then t + 500 * int (Suc k)
                          else t + 500 * int (Suc k) + 500), n + Suc k + 1)"
        unfolding step sh by simp
      moreover from e have "hasResolved (?R (Suc k)) \<or> \<not> t + 500 * int (Suc k) + 500 - start < T"
        unfolding sh .
      ultimately show ?thesis by (intro exI [of _ "Suc k"]) blast
    qed
  qed
qed

lemma last_read_index:
  assumes "\<forall>j < k. 500 * int j + 500 < T" and "T \<le> 500 * int k + 500"
  shows "int k = max 0 ((T - 1) div 500)"
proof (cases k)
  case 0
  with assms(2) show ?thesis by simp
next
  case (Suc k')
  with assms(1) have "500 * int k' + 500 < T" by simp
  with Suc have "500 * int k < T" by simp
  with assms(2) show ?thesis by simp
qed

lemma never_resolved_wait:
  assumes "jobIds \<noteq> []"
    and "\<forall>t. \<not> hasResolved (select_statuses clusterId jobIds (db t))"
  shows "fst (snd (getJobStatuses db jobIds clusterId (Some v) start))
           = start + 500 * max 0 ((v - 1) div 500) + 500"
proof -
  from assms(1) have g: "getJobStatuses db jobIds clusterId (Some v) start
                        = getJobStatuses_loop db jobIds clusterId v start start 0"
    by (simp add: getJobStatuses_def)
  from loop_characterised [of db jobIds clusterId v start start 0] assms(2) obtain k where
    r: "getJobStatuses_loop db jobIds clusterId v start start 0
          = (select_statuses clusterId jobIds (db (start + 500 * int k)),
             start + 500 * int k + 500, 0 + k + 1)"
    and b: "\<forall>j < k. start + 500 * int j + 500 - start < v"
    and e: "\<not> start + 500 * int k + 500 - start < v"
    by auto
  from b have "\<forall>j < k. 500 * int j + 500 < v" by simp
  moreover from e have "v \<le> 500 * int k + 500" by simp
  ultimately have "int k = max 0 ((v - 1) div 500)" by (rule last_read_index)
  with g r show ?thesis by simp
qed

lemmas run_getJobStatuses =
  getJobStatuses_def getJobStatuses_loop.simps select_statuses_def hasResolved_def
  sample_db_def sample_job_def

text \<open>
  C7. For every \<open>getJobStatuses\<close> call with a non-empty list of job ids there is a
  number \<open>k\<close> of sleeps such that: the call reads at the times \<open>start\<close>, \<open>start + 500\<close>,
  ..., \<open>start + 500 k\<close>; none of the reads before the last returned a row with status
  success or failure, and each was followed by a 500 ms sleep after which less than the
  timeout (20000 when none is given) had elapsed; the last read either returned such a
  row, and the call ends at once, or did not, and after one more sleep the timeout has
  elapsed; the result is the rows of the last read, which are taken from rows of the
  caller's cluster, and their ids are exactly the requested ids present in the caller's
  cluster at that read.
\<close>

theorem getJobStatuses_long_poll:
  assumes "jobIds \<noteq> []"
  shows "\<exists>k. getJobStatuses db jobIds clusterId longPollTimeout start
               = (select_statuses clusterId jobIds (db (start + 500 * int k)),
                  (if hasResolved (select_statuses clusterId jobIds (db (start + 500 * int k)))
                   then start + 500 * int k else start + 500 * int k + 500),
                  k + 1)
             \<and> (\<forall>j < k. \<not> hasResolved (select_statuses clusterId jobIds (db (start + 500 * int j)))
                         \<and> 500 * int j + 500
                             < (case longPollTimeout of None \<Rightarrow> 20000 | Some v \<Rightarrow> v))
             \<and> (hasResolved (select_statuses clusterId jobIds (db (start + 500 * int k)))
                  \<or> (case longPollTimeout of None \<Rightarrow> 20000 | Some v \<Rightarrow> v) \<le> 500 * int k + 500
                     \<and> int k = max 0 (((case longPollTimeout of None \<Rightarrow> 20000 | Some v \<Rightarrow> v) - 1)
                                        div 500))
             \<and> hasResolved (select_statuses clusterId jobIds (db (start + 500 * int k)))
                 = (\<exists>r \<in> set (select_statuses clusterId jobIds (db (start + 500 * int k))).
                      sr_status r = Success \<or> sr_status r = Failure)
             \<and> sr_id ` set (select_statuses clusterId jobIds (db (start + 500 * int k)))
                 = {i \<in> set jobIds.
                    \<exists>j \<in> set (db (start + 500 * int k)). job_id j = i \<and> owner_hash j = clusterId}
             \<and> (\<forall>r \<in> set (select_statuses clusterId jobIds (db (start + 500 * int k))).
                   \<exists>j \<in> set (db (start + 500 * int k)).
                     owner_hash j = clusterId \<and> job_id j \<in> set jobIds
                     \<and> sr_id r = job_id j \<and> sr_status r = status j \<and> sr_result r = result j
                     \<and> sr_resultType r = result_type j \<and> sr_service r = service j)"
proof -
  let ?T = "case longPollTimeout of None \<Rightarrow> 20000 | Some v \<Rightarrow> v"
  let ?R = "\<lambda>k. select_statuses clusterId jobIds (db (start + 500 * int k))"
  from assms have g: "getJobStatuses db jobIds clusterId longPollTimeout start
                        = getJobStatuses_loop db jobIds clusterId ?T start start 0"
    by (simp add: getJobStatuses_def)
  from loop_characterised [of db jobIds clusterId ?T start start 0] obtain k where
    r: "getJobStatuses_loop db jobIds clusterId ?T start start 0
          = (?R k, (if hasResolved (?R k) then start + 500 * int k else start + 500 * int k + 500),
             0 + k + 1)"
    and b: "\<forall>j < k. \<not> hasResolved (?R j) \<and> start + 500 * int j + 500 - start < ?T"
    and e: "hasResolved (?R k) \<or> \<not> start + 500 * int k + 500 - start < ?T"
    by blast
  from b have b': "\<forall>j < k. \<not> hasResolved (?R j) \<and> 500 * int j + 500 < ?T" by simp
  have e': "hasResolved (?R k) \<or> ?T \<le> 500 * int k + 500 \<and> int k = max 0 ((?T - 1) div 500)"
  proof (cases "hasResolved (?R k)")
    case True
    then show ?thesis by simp
  next
    case False
    with e have up: "?T \<le> 500 * int k + 500" by simp
    have "int k = max 0 ((?T - 1) div 500)"
    proof (cases k)
      case 0
      with up show ?thesis by simp
    next
      case (Suc k')
      with b' have "500 * int k' + 500 < ?T" by simp
      with Suc have "500 * int k < ?T" by simp
      with up show ?thesis by simp
    qed
    with up show ?thesis by simp
  qed
  have h: "hasResolved (?R k) = (\<exists>r \<in> set (?R k). sr_status r = Success \<or> sr_status r = Failure)"
    by (simp add: hasResolved_def list_ex_iff)
  have i: "sr_id ` set (?R k)
             = {i \<in> set jobIds.
                \<exists>j \<in> set (db (start + 500 * int k)). job_id j = i \<and> owner_hash j = clusterId}"
    by (rule select_statuses_ids)
  have c: "\<forall>r \<in> set (?R k).
             \<exists>j \<in> set (db (start + 500 * int k)).
               owner_hash j = clusterId \<and> job_id j \<in> set jobIds
               \<and> sr_id r = job_id j \<and> sr_status r = status j \<and> sr_result r = result j
               \<and> sr_resultType r = result_type j \<and> sr_service r = service j"
    using select_statuses_rows by blast
  from g r have "getJobStatuses db jobIds clusterId longPollTimeout start
         = (?R k, (if hasResolved (?R k) then start + 500 * int k else start + 500 * int k + 500),
            k + 1)"
    by simp
  with b' e' h i c show ?thesis by blast
qed

text \<open>
  C7, witness: job 01 succeeds at time 1000; job 03 belongs to another cluster and
  \<open>zz\<close> does not exist. The call for 01, 03 and \<open>zz\<close> reads three times, returns at 1000
  and returns job 01 alone.
\<close>

theorem getJobStatuses_long_poll_witness:
  "[''01'', ''03'', ''zz''] \<noteq> []
   \<and> getJobStatuses sample_db [''01'', ''03'', ''zz''] ''c1'' None 0
       = ([\<lparr>sr_id = ''01'', sr_service = ''svc'', sr_status = Success, sr_result = None,
            sr_resultType = None\<rparr>], 1000, 3)
   \<and> sr_id ` set (fst (getJobStatuses sample_db [''01'', ''03'', ''zz''] ''c1'' None 0))
       = {i \<in> set [''01'', ''03'', ''zz''].
          \<exists>j \<in> set (sample_db 1000). job_id j = i \<and> owner_hash j = ''c1''}"
proof -
  let ?ids = "[''01'', ''03'', ''zz'']"
  let ?G = "getJobStatuses sample_db ?ids ''c1'' None 0"
  have n: "?ids \<noteq> []" by simp
  have v: "?G = ([\<lparr>sr_id = ''01'', sr_service = ''svc'', sr_status = Success, sr_result = None,
                    sr_resultType = None\<rparr>], 1000, 3)"
    by (simp add: run_getJobStatuses)
  from getJobStatuses_long_poll [OF n, of sample_db "''c1''" None 0] obtain k where
    r: "?G = (select_statuses ''c1'' ?ids (sample_db (0 + 500 * int k)),
              (if hasResolved (select_statuses ''c1'' ?ids (sample_db (0 + 500 * int k)))
               then 0 + 500 * int k else 0 + 500 * int k + 500), k + 1)"
    and i: "sr_id ` set (select_statuses ''c1'' ?ids (sample_db (0 + 500 * int k)))
              = {i \<in> set ?ids.
                 \<exists>j \<in> set (sample_db (0 + 500 * int k)). job_id j = i \<and> owner_hash j = ''c1''}"
    by blast
  from r v have "k + 1 = 3" by simp
  then have k: "k = 2" by simp
  from r have "fst ?G = select_statuses ''c1'' ?ids (sample_db (0 + 500 * int k))" by simp
  with i k have "sr_id ` set (fst ?G)
       = {i \<in> set ?ids. \<exists>j \<in> set (sample_db 1000). job_id j = i \<and> owner_hash j = ''c1''}"
    by simp
  with n v show ?thesis by (intro conjI)
qed

text \<open>
  C8 (amended). The contract's \<open>ttl\<close> has the default 20000 and accepts a value from
  5000 to 20000 unchanged; a value below 5000 or above 20000 is refused by the
  validation, not clipped. The client's constructor refuses a \<open>jobPollWaitTime\<close> that is
  below 5000 and is not 0; it keeps 0 (which \<^verbatim>\<open>|| 20000\<close> replaces for the test alone),
  every value from 5000 up, with no upper bound, and a missing value, as they were
  given. \<open>getJobStatuses\<close> itself takes 20000
  when no timeout is given and uses a given timeout as it is: when no requested job
  resolves, the call lasts 500 ms times the number of reads the given timeout allows.
\<close>

theorem long_poll_timeout_bounds:
  "ttl_schema None = Inr 20000
   \<and> (\<forall>x. ttl_schema v = Inr x \<longrightarrow> 5000 \<le> x \<and> x \<le> 20000)
   \<and> (5000 \<le> w \<and> w \<le> 20000 \<longrightarrow> ttl_schema (Some w) = Inr w)
   \<and> (w < 5000 \<longrightarrow> ttl_schema (Some w) = Inl TooSmall)
   \<and> (20000 < w \<longrightarrow> ttl_schema (Some w) = Inl TooBig)
   \<and> Differential_jobPollWaitTime None = Inr None
   \<and> Differential_jobPollWaitTime (Some w)
       = (if w \<noteq> 0 \<and> w < 5000 then Inl JobPollWaitTimeTooShort else Inr (Some w))
   \<and> getJobStatuses db jobIds clusterId None start
       = getJobStatuses db jobIds clusterId (Some 20000) start
   \<and> (jobIds \<noteq> [] \<and> (\<forall>t. \<not> hasResolved (select_statuses clusterId jobIds (db t)))
        \<longrightarrow> fst (snd (getJobStatuses db jobIds clusterId (Some w) start))
              = start + 500 * max 0 ((w - 1) div 500) + 500)"
proof -
  have a: "ttl_schema None = Inr 20000" by (simp add: ttl_schema_def)
  have b: "\<forall>x. ttl_schema v = Inr x \<longrightarrow> 5000 \<le> x \<and> x \<le> 20000"
    by (auto simp: ttl_schema_def split: option.splits if_splits)
  have c: "5000 \<le> w \<and> w \<le> 20000 \<longrightarrow> ttl_schema (Some w) = Inr w"
    by (simp add: ttl_schema_def)
  have d: "w < 5000 \<longrightarrow> ttl_schema (Some w) = Inl TooSmall"
    by (simp add: ttl_schema_def)
  have e: "20000 < w \<longrightarrow> ttl_schema (Some w) = Inl TooBig"
    by (simp add: ttl_schema_def)
  have f: "Differential_jobPollWaitTime None = Inr None"
    by (simp add: Differential_jobPollWaitTime_def)
  have g: "Differential_jobPollWaitTime (Some w)
       = (if w \<noteq> 0 \<and> w < 5000 then Inl JobPollWaitTimeTooShort else Inr (Some w))"
    by (simp add: Differential_jobPollWaitTime_def)
  have h: "getJobStatuses db jobIds clusterId None start
       = getJobStatuses db jobIds clusterId (Some 20000) start"
    by (simp add: getJobStatuses_def)
  have i: "jobIds \<noteq> [] \<and> (\<forall>t. \<not> hasResolved (select_statuses clusterId jobIds (db t)))
        \<longrightarrow> fst (snd (getJobStatuses db jobIds clusterId (Some w) start))
              = start + 500 * max 0 ((w - 1) div 500) + 500"
    using never_resolved_wait by blast
  from a b c d e f g h i show ?thesis by (intro conjI)
qed

text \<open>
  C8, witness: the contract accepts 7000 and refuses 4000 and 30000; with a job that
  stays running, \<open>getJobStatuses\<close> waits 30000 ms for the timeout 30000 and 500 ms for
  the timeout 100; the constructor refuses 4000 and keeps 0 and 30000.
\<close>

theorem long_poll_timeout_bounds_witness:
  "ttl_schema (Some 7000) = Inr 7000
   \<and> ttl_schema (Some 4000) = Inl TooSmall
   \<and> ttl_schema (Some 30000) = Inl TooBig
   \<and> [''01''] \<noteq> []
   \<and> fst (snd (getJobStatuses running_db [''01''] ''c1'' (Some 30000) 0)) = 30000
   \<and> fst (snd (getJobStatuses running_db [''01''] ''c1'' (Some 100) 0)) = 500
   \<and> Differential_jobPollWaitTime (Some 4000) = Inl JobPollWaitTimeTooShort
   \<and> Differential_jobPollWaitTime (Some 0) = Inr (Some 0)
   \<and> Differential_jobPollWaitTime (Some 30000) = Inr (Some 30000)"
proof -
  note th = long_poll_timeout_bounds
  have r: "\<forall>t. \<not> hasResolved (select_statuses ''c1'' [''01''] (running_db t))"
    by (simp add: hasResolved_def select_statuses_def running_db_def sample_job_def)
  have n: "[''01''] \<noteq> []" by simp
  from th [of "Some 7000" 7000] have a: "ttl_schema (Some 7000) = Inr 7000" by simp
  from th [of "Some 4000" 4000] have b: "ttl_schema (Some 4000) = Inl TooSmall" by simp
  from th [of "Some 30000" 30000] have c: "ttl_schema (Some 30000) = Inl TooBig" by simp
  from th [of None 30000 running_db "[''01'']" "''c1''" 0] n r
  have d: "fst (snd (getJobStatuses running_db [''01''] ''c1'' (Some 30000) 0)) = 30000"
    by simp
  from th [of None 100 running_db "[''01'']" "''c1''" 0] n r
  have e: "fst (snd (getJobStatuses running_db [''01''] ''c1'' (Some 100) 0)) = 500"
    by simp
  from th [of None 4000]
  have f: "Differential_jobPollWaitTime (Some 4000) = Inl JobPollWaitTimeTooShort" by simp
  from th [of None 0]
  have g: "Differential_jobPollWaitTime (Some 0) = Inr (Some 0)" by simp
  from th [of None 30000]
  have h: "Differential_jobPollWaitTime (Some 30000) = Inr (Some 30000)" by simp
  from a b c n d e f g h show ?thesis by (intro conjI)
qed

text \<open>
  C8, counterexample: the contract does not turn 4000 into 5000 nor 30000 into 20000,
  and \<open>getJobStatuses\<close> called with the timeout 100 ends after one read and 500 ms, not
  as it does with the timeout 5000.
\<close>

theorem long_poll_timeout_not_clipped_counterexample:
  "ttl_schema (Some 4000) = Inl TooSmall
   \<and> ttl_schema (Some 4000) \<noteq> Inr 5000
   \<and> ttl_schema (Some 30000) = Inl TooBig
   \<and> ttl_schema (Some 30000) \<noteq> Inr 20000
   \<and> getJobStatuses running_db [''01''] ''c1'' (Some 100) 0
       = ([\<lparr>sr_id = ''01'', sr_service = ''svc'', sr_status = Running, sr_result = None,
            sr_resultType = None\<rparr>], 500, 1)
   \<and> getJobStatuses running_db [''01''] ''c1'' (Some 100) 0
       \<noteq> getJobStatuses running_db [''01''] ''c1'' (Some 5000) 0"
  by (simp add: ttl_schema_def getJobStatuses_def getJobStatuses_loop.simps select_statuses_def
      hasResolved_def running_db_def sample_job_def)

text \<open>
  C10. For every \<open>getJobStatuses\<close> call with an empty list of job ids, the call returns
  the empty list with the clock where it was and no read made, whatever the table and
  the timeout.
\<close>

theorem getJobStatuses_empty:
  "getJobStatuses db [] clusterId longPollTimeout start = ([], start, 0)"
  by (simp add: getJobStatuses_def)

section \<open>Properties of the polling agent\<close>

lemma idle_limit_reached_upd:
  "idle_limit_reached (a\<lparr>errorCount := n\<rparr>) = idle_limit_reached a"
  "idle_limit_reached (a\<lparr>aborted := b\<rparr>) = idle_limit_reached a"
  by (simp_all add: idle_limit_reached_def split: option.splits)

lemma poll_cycle_failed:
  assumes "current (pollState a) < concurrency (pollState a)"
    and "reply_status r \<noteq> 200" and "reply_status r \<noteq> 401"
  shows "poll_cycle a r
           = Inr (if 10 < errorCount a + 1 \<or> idle_limit_reached a
                  then a\<lparr>errorCount := errorCount a + 1, aborted := True\<rparr>
                  else a\<lparr>errorCount := errorCount a + 1\<rparr>)"
  using assms
  by (simp add: poll_cycle_def pollForNextJob_def quit_def idle_limit_reached_upd Let_def)

lemma poll_cycle_ok:
  assumes "current (pollState a) < concurrency (pollState a)"
    and "reply_status r = 200"
  shows "\<exists>a'. poll_cycle a r = Inr a' \<and> errorCount a' = 0"
  using assms
  by (simp add: poll_cycle_def pollForNextJob_def quit_def Let_def)

lemma poll_cycle_full:
  assumes "concurrency (pollState a) \<le> current (pollState a)"
  shows "\<exists>a'. poll_cycle a r = Inr a' \<and> errorCount a' = 0"
  using assms
  by (simp add: poll_cycle_def pollForNextJob_def quit_def Let_def)

lemma poll_cycle_401:
  assumes "current (pollState a) < concurrency (pollState a)"
    and "reply_status r = 401"
  shows "poll_cycle a r = Inl Unauthorised"
  using assms
  by (simp add: poll_cycle_def pollForNextJob_def)

lemma failed_polls:
  assumes "list_all (\<lambda>r. reply_status r \<noteq> 200 \<and> reply_status r \<noteq> 401) rs"
    and "\<not> aborted a" and "\<not> idle_limit_reached a"
    and "current (pollState a) < concurrency (pollState a)"
    and "errorCount a \<le> 10"
  shows "poll a (map Poll rs)
           = (if errorCount a + length rs \<le> 10
              then Polling (a\<lparr>errorCount := errorCount a + length rs\<rparr>)
              else Stopped (a\<lparr>errorCount := 11, aborted := True, pollingAborted := True\<rparr>))"
  using assms
proof (induction rs arbitrary: a)
  case Nil
  then show ?case by simp
next
  case (Cons r rs)
  from Cons.prems have f: "reply_status r \<noteq> 200" "reply_status r \<noteq> 401"
    and rest: "list_all (\<lambda>r. reply_status r \<noteq> 200 \<and> reply_status r \<noteq> 401) rs"
    by simp_all
  note c = poll_cycle_failed [OF Cons.prems(4) f]
  show ?case
  proof (cases "errorCount a = 10")
    case True
    with c Cons.prems have "poll_cycle a r = Inr (a\<lparr>errorCount := 11, aborted := True\<rparr>)"
      by simp
    with Cons.prems(2) True show ?thesis by (cases rs) simp_all
  next
    case False
    with Cons.prems(5) have lt: "errorCount a < 10" by simp
    let ?a = "a\<lparr>errorCount := errorCount a + 1\<rparr>"
    from c lt Cons.prems(3) have s: "poll_cycle a r = Inr ?a" by simp
    have "poll ?a (map Poll rs)
           = (if errorCount ?a + length rs \<le> 10
              then Polling (?a\<lparr>errorCount := errorCount ?a + length rs\<rparr>)
              else Stopped (?a\<lparr>errorCount := 11, aborted := True, pollingAborted := True\<rparr>))"
      using rest Cons.prems(2,3,4) lt
      by (intro Cons.IH) (simp_all add: idle_limit_reached_upd)
    with s Cons.prems(2) show ?thesis by simp
  qed
qed

lemmas run_poll =
  poll_cycle_def pollForNextJob_def quit_def idle_limit_reached_def started_agent_def Let_def

text \<open>
  C9 (amended). For a polling agent that is not aborted and is below its concurrency
  cap: a poll that ends in a network error or in a status other than 200 and 401 adds 1
  to the consecutive-error count, and aborts the agent when the new count is above 10
  (or the idle limit is reached); a poll answered with 200 resets the count to 0; a poll
  answered with 401 throws, which ends the loop whatever the count. From a count of 0,
  the agent is still polling after up to 10 consecutive failed polls and has stopped
  after the 11th.
\<close>

theorem polling_agent_error_count:
  assumes "\<not> aborted a"
    and "current (pollState a) < concurrency (pollState a)"
  shows "(reply_status r \<noteq> 200 \<and> reply_status r \<noteq> 401
            \<longrightarrow> (\<exists>a'. poll_cycle a r = Inr a'
                   \<and> errorCount a' = errorCount a + 1
                   \<and> aborted a' = (10 < errorCount a + 1 \<or> idle_limit_reached a)))
         \<and> (reply_status r = 200 \<longrightarrow> (\<exists>a'. poll_cycle a r = Inr a' \<and> errorCount a' = 0))
         \<and> (reply_status r = 401
              \<longrightarrow> poll_cycle a r = Inl Unauthorised
                  \<and> poll a (Poll r # rest) = Crashed Unauthorised a)
         \<and> (list_all (\<lambda>r. reply_status r \<noteq> 200 \<and> reply_status r \<noteq> 401) rs
              \<and> errorCount a = 0 \<and> \<not> idle_limit_reached a
              \<longrightarrow> poll a (map Poll rs)
                    = (if length rs \<le> 10 then Polling (a\<lparr>errorCount := length rs\<rparr>)
                       else Stopped (a\<lparr>errorCount := 11, aborted := True,
                                       pollingAborted := True\<rparr>)))"
proof -
  have one: "\<exists>a'. poll_cycle a r = Inr a'
                   \<and> errorCount a' = errorCount a + 1
                   \<and> aborted a' = (10 < errorCount a + 1 \<or> idle_limit_reached a)"
    if "reply_status r \<noteq> 200 \<and> reply_status r \<noteq> 401"
    using poll_cycle_failed [OF assms(2), of r] that assms(1) by simp
  have two: "\<exists>a'. poll_cycle a r = Inr a' \<and> errorCount a' = 0" if "reply_status r = 200"
    using poll_cycle_ok [OF assms(2) that] .
  have three: "poll_cycle a r = Inl Unauthorised
                  \<and> poll a (Poll r # rest) = Crashed Unauthorised a"
    if "reply_status r = 401"
    using poll_cycle_401 [OF assms(2) that] assms(1) by simp
  have four: "poll a (map Poll rs)
                    = (if length rs \<le> 10 then Polling (a\<lparr>errorCount := length rs\<rparr>)
                       else Stopped (a\<lparr>errorCount := 11, aborted := True,
                                       pollingAborted := True\<rparr>))"
    if "list_all (\<lambda>r. reply_status r \<noteq> 200 \<and> reply_status r \<noteq> 401) rs
              \<and> errorCount a = 0 \<and> \<not> idle_limit_reached a"
    using failed_polls [of rs a] that assms by simp
  from one two three four show ?thesis by blast
qed

text \<open>
  C9, witness: a new agent stops after 11 consecutive network errors, is still polling
  after 10, crashes on one 401, and counts one error for a 503.
\<close>

theorem polling_agent_error_count_witness:
  "\<not> aborted (started_agent None)
   \<and> current (pollState (started_agent None)) < concurrency (pollState (started_agent None))
   \<and> poll (started_agent None) (map Poll (replicate 11 NetworkError))
       = Stopped ((started_agent None)\<lparr>errorCount := 11, aborted := True, pollingAborted := True\<rparr>)
   \<and> poll (started_agent None) (map Poll (replicate 10 NetworkError))
       = Polling ((started_agent None)\<lparr>errorCount := 10\<rparr>)
   \<and> poll (started_agent None) [Poll (Response 401 0)] = Crashed Unauthorised (started_agent None)
   \<and> (\<exists>a'. poll_cycle (started_agent None) (Response 503 0) = Inr a' \<and> errorCount a' = 1)"
proof -
  let ?a = "started_agent None"
  have h1: "\<not> aborted ?a" by (simp add: started_agent_def)
  have h2: "current (pollState ?a) < concurrency (pollState ?a)" by (simp add: started_agent_def)
  have e0: "errorCount ?a = 0" "\<not> idle_limit_reached ?a"
    by (simp_all add: started_agent_def idle_limit_reached_def)
  note th = polling_agent_error_count [OF h1 h2]
  have f: "list_all (\<lambda>r. reply_status r \<noteq> 200 \<and> reply_status r \<noteq> 401) (replicate n NetworkError)"
    for n by (simp add: list_all_iff)
  from th [of NetworkError "[]" "replicate 11 NetworkError"] f [of 11] e0
  have a: "poll ?a (map Poll (replicate 11 NetworkError))
       = Stopped (?a\<lparr>errorCount := 11, aborted := True, pollingAborted := True\<rparr>)"
    by simp
  from th [of NetworkError "[]" "replicate 10 NetworkError"] f [of 10] e0
  have b: "poll ?a (map Poll (replicate 10 NetworkError)) = Polling (?a\<lparr>errorCount := 10\<rparr>)"
    by simp
  from th [of "Response 401 0" "[]" "[]"]
  have c: "poll ?a [Poll (Response 401 0)] = Crashed Unauthorised ?a"
    by simp
  from th [of "Response 503 0" "[]" "[]"] e0
  have d: "\<exists>a'. poll_cycle ?a (Response 503 0) = Inr a' \<and> errorCount a' = 1"
    by auto
  from h1 h2 a b c d show ?thesis by (intro conjI)
qed

text \<open>
  C9, counterexample: after 10 consecutive network errors (or 10 consecutive 500s) a
  new agent is still polling, not aborted, with the count at 10.
\<close>

theorem polling_agent_ten_errors_counterexample:
  "poll (started_agent None) (replicate 10 (Poll NetworkError))
     = Polling ((started_agent None)\<lparr>errorCount := 10\<rparr>)
   \<and> \<not> aborted ((started_agent None)\<lparr>errorCount := 10\<rparr>)
   \<and> poll (started_agent None) (replicate 10 (Poll (Response 500 0)))
     = Polling ((started_agent None)\<lparr>errorCount := 10\<rparr>)"
  by (simp add: run_poll eval_nat_numeral)

end
